theory Spec2Isabelle
  imports Complex_Main "HOL-Library.Multiset"
begin

section \<open>Python values, exceptions and tables\<close>

text \<open>
  Exceptions are values. Every constructor stands for a class below Python's
  \<open>Exception\<close> and carries the text that \<open>str(e)\<close> returns, which may be any
  string, the empty one included (\<open>str(Exception())\<close> is empty). Interrupts, which are
  not below \<open>Exception\<close> and which no handler of the scripts catches, are not modelled.
\<close>

datatype py_exception =
    JSONDecodeError string
  | KeyError string
  | AttributeError string
  | ValueError string
  | IndexError string
  | RuntimeError string
  | OtherException string

fun exc_str :: "py_exception \<Rightarrow> string" where
  "exc_str (JSONDecodeError m) = m"
| "exc_str (KeyError m) = m"
| "exc_str (AttributeError m) = m"
| "exc_str (ValueError m) = m"
| "exc_str (IndexError m) = m"
| "exc_str (RuntimeError m) = m"
| "exc_str (OtherException m) = m"

text \<open>A cell of a table is text or missing (pandas' NaN).\<close>

datatype cell = NaN | Text string

text \<open>
  What \<open>json.loads\<close> can return. A float keeps its literal: the scripts never compute
  with one. An object is the list of the items of the resulting dict.
\<close>

datatype json =
    JNull
  | JBool bool
  | JInt int
  | JFloat string
  | JString string
  | JArray "json list"
  | JObject "(string \<times> json) list"

text \<open>
  A table has column labels and rows; a row gives the cells it holds by label, and a
  label of the table that a row does not list is a missing cell. A \<open>series\<close> is one row
  as \<open>iterrows\<close> hands it out: the labels of the table with the row's cells.
\<close>

record dataframe =
  columns :: "string list"
  rows :: "(string \<times> cell) list list"

record series =
  index :: "string list"
  cells :: "(string \<times> cell) list"

definition cell_at :: "(string \<times> cell) list \<Rightarrow> string \<Rightarrow> cell" where
  "cell_at r k = (case map_of r k of Some c \<Rightarrow> c | None \<Rightarrow> NaN)"

definition iterrows :: "dataframe \<Rightarrow> series list" where
  "iterrows df = map (\<lambda>r. \<lparr>index = columns df, cells = r\<rparr>) (rows df)"

text \<open>\<open>row[k]\<close> raises KeyError for a label the row does not have; \<open>row.get(k, d)\<close>
  returns \<open>d\<close> then.\<close>

definition quoted :: "string \<Rightarrow> string" where
  "quoted s = [CHR 0x27] @ s @ [CHR 0x27]"

definition series_getitem :: "series \<Rightarrow> string \<Rightarrow> py_exception + cell" where
  "series_getitem row k =
     (if k \<in> set (index row) then Inr (cell_at (cells row) k) else Inl (KeyError (quoted k)))"

definition series_get :: "series \<Rightarrow> string \<Rightarrow> cell \<Rightarrow> cell" where
  "series_get row k d = (if k \<in> set (index row) then cell_at (cells row) k else d)"

section \<open>The labeling script\<close>

definition N_EXAMPLES :: int where
  "N_EXAMPLES = 5"

definition ERROR_LABELS :: "string list" where
  "ERROR_LABELS =
     [''CORRECT'',
      ''ARITHMETIC_ERROR'',
      ''ACCOUNTING_CONVENTION_ERROR'',
      ''MISSING_OR_WRONG_ASSUMPTION'',
      ''WRONG_METRIC_OR_CONCEPT'',
      ''CONTEXT_MISUSE_OR_HALLUCINATION'',
      ''NON_ANSWER_OR_GENERIC'']"

text \<open>
  The outside world of one run of the script. The two responders are reached through
  \<open>client.chat.completions.create\<close>; what one call gives is either an exception or the
  \<open>content\<close> of the first choice, which may be \<open>None\<close>. The outcome may differ from call
  to call, so it depends on the position of the sample in the batch as well as on the
  texts sent. \<open>json_loads\<close> is the library's parser.
\<close>

record world =
  target_content :: "nat \<Rightarrow> cell \<Rightarrow> cell \<Rightarrow> py_exception + string option"
  judge_content :: "nat \<Rightarrow> cell \<Rightarrow> cell \<Rightarrow> string \<Rightarrow> py_exception + string option"
  json_loads :: "string \<Rightarrow> py_exception + json"

subsection \<open>get_client\<close>

definition get_client :: "string option \<Rightarrow> py_exception + unit" where
  "get_client api_key =
     (case api_key of
        None \<Rightarrow> Inl (RuntimeError ''OPENAI_API_KEY needs to be set in the enviornment'')
      | Some k \<Rightarrow>
          if k = [] then Inl (RuntimeError ''OPENAI_API_KEY needs to be set in the enviornment'')
          else Inr ())"

subsection \<open>load_financeqa_sample\<close>

text \<open>
  \<open>isin\<close> is false on a missing cell. \<open>df.sample\<close> with the fixed seed draws without
  replacement: it takes a prefix of the permutation of the row positions that the seeded
  generator produces for a table of that height. The generator is numpy's; its
  permutation is the parameter \<open>perm\<close>. \<open>frac=1.0\<close> asks for as many rows as the table
  has, and a negative \<open>n\<close> is refused with ValueError.
\<close>

definition isin :: "cell \<Rightarrow> string list \<Rightarrow> bool" where
  "isin c vs = (case c of NaN \<Rightarrow> False | Text s \<Rightarrow> s \<in> set vs)"

definition take_rows :: "dataframe \<Rightarrow> nat list \<Rightarrow> dataframe" where
  "take_rows df is = df\<lparr>rows := map (\<lambda>i. rows df ! i) is\<rparr>"

definition sample_frac1 :: "(nat \<Rightarrow> nat list) \<Rightarrow> dataframe \<Rightarrow> py_exception + dataframe" where
  "sample_frac1 perm df =
     Inr (take_rows df (take (length (rows df)) (perm (length (rows df)))))"

definition sample_n :: "(nat \<Rightarrow> nat list) \<Rightarrow> int \<Rightarrow> dataframe \<Rightarrow> py_exception + dataframe" where
  "sample_n perm n df =
     (if n < 0
      then Inl (ValueError ''A negative number of rows requested. Please provide `n` >= 0.'')
      else Inr (take_rows df (take (nat n) (perm (length (rows df))))))"

definition category_mask :: "dataframe \<Rightarrow> dataframe" where
  "category_mask ds =
     (if ''question_type'' \<in> set (columns ds)
      then ds\<lparr>rows := filter (\<lambda>r. isin (cell_at r ''question_type'') [''basic'', ''assumption''])
                          (rows ds)\<rparr>
      else ds)"

definition load_financeqa_sample ::
  "(nat \<Rightarrow> nat list) \<Rightarrow> dataframe \<Rightarrow> int \<Rightarrow> py_exception + dataframe" where
  "load_financeqa_sample perm ds n =
     (let df = category_mask ds
      in if int (length (rows df)) \<le> n then sample_frac1 perm df
         else sample_n perm n df)"

subsection \<open>call_target_model\<close>

text \<open>
  \<open>str.strip()\<close> removes the white space of both ends. A string here holds code points
  below 256, and of these Python counts as white space 9 to 13, 28 to 32, 133 (U+0085)
  and 160 (U+00A0). The white space above U+00FF (U+1680, U+2000 to U+200A, U+2028,
  U+2029, U+202F, U+205F and U+3000) does not occur in a string of this type.
\<close>

definition is_space :: "char \<Rightarrow> bool" where
  "is_space c =
     (let n = (of_char c :: nat)
      in (9 \<le> n \<and> n \<le> 13) \<or> (28 \<le> n \<and> n \<le> 32) \<or> n = 133 \<or> n = 160)"

definition strip :: "string \<Rightarrow> string" where
  "strip s = rev (dropWhile is_space (rev (dropWhile is_space s)))"

definition call_target_model :: "world \<Rightarrow> nat \<Rightarrow> cell \<Rightarrow> cell \<Rightarrow> py_exception + string" where
  "call_target_model w i question ctxt =
     (case target_content w i question ctxt of
        Inl e \<Rightarrow> Inl e
      | Inr None \<Rightarrow> Inl (AttributeError (quoted ''NoneType'' @ '' object has no attribute '' @ quoted ''strip''))
      | Inr (Some content) \<Rightarrow> Inr (strip content))"

subsection \<open>label_failure\<close>

fun type_name :: "json \<Rightarrow> string" where
  "type_name JNull = ''NoneType''"
| "type_name (JBool b) = ''bool''"
| "type_name (JInt n) = ''int''"
| "type_name (JFloat f) = ''float''"
| "type_name (JString s) = ''str''"
| "type_name (JArray xs) = ''list''"
| "type_name (JObject kvs) = ''dict''"

text \<open>\<open>data.get(k, d)\<close>: only a dict has the method.\<close>

definition data_get :: "json \<Rightarrow> string \<Rightarrow> json \<Rightarrow> py_exception + json" where
  "data_get data k d =
     (case data of
        JObject kvs \<Rightarrow> Inr (case map_of kvs k of Some v \<Rightarrow> v | None \<Rightarrow> d)
      | _ \<Rightarrow> Inl (AttributeError (quoted (type_name data) @ '' object has no attribute '' @ quoted ''get'')))"

text \<open>The body of the \<open>try\<close> block: the call, then the parse of a non-empty content.\<close>

definition label_failure_try ::
  "world \<Rightarrow> nat \<Rightarrow> cell \<Rightarrow> cell \<Rightarrow> string \<Rightarrow> py_exception + (json \<times> json)" where
  "label_failure_try w i question truth model_answer =
     (case judge_content w i question truth model_answer of
        Inl e \<Rightarrow> Inl e
      | Inr content \<Rightarrow>
          (case content of
             Some (c # cs) \<Rightarrow>
               (case json_loads w (c # cs) of
                  Inl e \<Rightarrow> Inl e
                | Inr data \<Rightarrow>
                    (case data_get data ''label'' (JString ''UNKNOWN'') of
                       Inl e \<Rightarrow> Inl e
                     | Inr label \<Rightarrow>
                         (case data_get data ''rationale'' (JString '''') of
                            Inl e \<Rightarrow> Inl e
                          | Inr rationale \<Rightarrow> Inr (label, rationale))))
           | _ \<Rightarrow> Inr (JString ''UNKNOWN'', JString ''No content returned in JSON'')))"

text \<open>The two handlers, in the order of the source, then the check of the label against
  \<open>ERROR_LABELS\<close>. Membership in a list of strings compares by equality, so a label
  that is not a string is not a member.\<close>

definition label_failure ::
  "world \<Rightarrow> nat \<Rightarrow> cell \<Rightarrow> cell \<Rightarrow> string \<Rightarrow> py_exception + (json \<times> json)" where
  "label_failure w i question truth model_answer =
     (let (label, rationale) =
            (case label_failure_try w i question truth model_answer of
               Inr lr \<Rightarrow> lr
             | Inl (JSONDecodeError m) \<Rightarrow>
                 (JString ''UNKNOWN'', JString (''JSON decode error: '' @ m))
             | Inl e \<Rightarrow> (JString ''UNKNOWN'', JString (exc_str e)));
          label = (if label \<notin> set (map JString ERROR_LABELS) then JString ''UNKNOWN'' else label)
      in Inr (label, rationale))"

subsection \<open>main\<close>

record labeled_record =
  col_question :: cell
  col_answer :: cell
  col_context :: cell
  col_question_type :: cell
  col_company :: cell
  col_file_link :: cell
  col_file_name :: cell
  col_model_answer :: string
  col_error_label :: json
  col_error_rationale :: json

text \<open>One turn of the loop over \<open>df.iterrows()\<close>, for the sample at position \<open>i\<close>.\<close>

definition label_row :: "world \<Rightarrow> nat \<Rightarrow> series \<Rightarrow> py_exception + labeled_record" where
  "label_row w i row =
     (case series_getitem row ''question'' of
        Inl e \<Rightarrow> Inl e
      | Inr question \<Rightarrow>
     (case series_getitem row ''answer'' of
        Inl e \<Rightarrow> Inl e
      | Inr answer \<Rightarrow>
     (let ctxt = series_get row ''context'' (Text '''');
          model_answer =
            (case call_target_model w i question ctxt of
               Inl e \<Rightarrow> ''''
             | Inr a \<Rightarrow> a);
          (label, rationale) =
            (case label_failure w i question answer model_answer of
               Inl e \<Rightarrow> (JString ''UNKNOWN'', JString (exc_str e))
             | Inr lr \<Rightarrow> lr)
      in Inr \<lparr>col_question = question,
              col_answer = answer,
              col_context = ctxt,
              col_question_type = series_get row ''question_type'' (Text ''''),
              col_company = series_get row ''company'' (Text ''''),
              col_file_link = series_get row ''file_link'' (Text ''''),
              col_file_name = series_get row ''file_name'' (Text ''''),
              col_model_answer = model_answer,
              col_error_label = label,
              col_error_rationale = rationale\<rparr>)))"

text \<open>The loop: the records are appended in order; an exception that leaves a turn
  leaves the loop, and nothing is written.\<close>

fun label_rows :: "world \<Rightarrow> nat \<Rightarrow> series list \<Rightarrow> py_exception + labeled_record list" where
  "label_rows w i [] = Inr []"
| "label_rows w i (row # rest) =
     (case label_row w i row of
        Inl e \<Rightarrow> Inl e
      | Inr r \<Rightarrow>
          (case label_rows w (Suc i) rest of
             Inl e \<Rightarrow> Inl e
           | Inr records \<Rightarrow> Inr (r # records)))"

text \<open>\<open>main\<close> up to the table it writes: the rows of \<open>out_df\<close> are the records.\<close>

definition main ::
  "string option \<Rightarrow> (nat \<Rightarrow> nat list) \<Rightarrow> dataframe \<Rightarrow> world \<Rightarrow> py_exception + labeled_record list" where
  "main api_key perm ds w =
     (case get_client api_key of
        Inl e \<Rightarrow> Inl e
      | Inr client \<Rightarrow>
          (case load_financeqa_sample perm ds N_EXAMPLES of
             Inl e \<Rightarrow> Inl e
           | Inr df \<Rightarrow> label_rows w 0 (iterrows df)))"

section \<open>The viewer\<close>

subsection \<open>compute_metrics\<close>

text \<open>\<open>df[k]\<close> is the column of the cells under \<open>k\<close>, and raises KeyError when the table
  has no such column.\<close>

definition df_getitem :: "dataframe \<Rightarrow> string \<Rightarrow> py_exception + cell list" where
  "df_getitem df k =
     (if k \<in> set (columns df) then Inr (map (\<lambda>r. cell_at r k) (rows df))
      else Inl (KeyError (quoted k)))"

text \<open>
  \<open>value_counts()\<close> counts the values of a column, leaving missing cells out. The
  values are tallied in the order of their first appearance, and the tally is then
  sorted by falling count; the sort keeps values of equal count in the order of the
  tally.
\<close>

fun bump :: "string \<Rightarrow> (string \<times> nat) list \<Rightarrow> (string \<times> nat) list" where
  "bump k [] = [(k, 1)]"
| "bump k ((k', c) # kcs) = (if k = k' then (k', Suc c) # kcs else (k', c) # bump k kcs)"

fun tally_into :: "(string \<times> nat) list \<Rightarrow> cell list \<Rightarrow> (string \<times> nat) list" where
  "tally_into acc [] = acc"
| "tally_into acc (NaN # cs) = tally_into acc cs"
| "tally_into acc (Text s # cs) = tally_into (bump s acc) cs"

definition value_counts :: "cell list \<Rightarrow> (string \<times> nat) list" where
  "value_counts cs = sort_key (\<lambda>kc. - int (snd kc)) (tally_into [] cs)"

text \<open>\<open>drop(labels=[k], errors="ignore")\<close> removes the entry of \<open>k\<close> when there is one.\<close>

definition series_drop :: "string \<Rightarrow> (string \<times> nat) list \<Rightarrow> (string \<times> nat) list" where
  "series_drop k kcs = filter (\<lambda>kc. fst kc \<noteq> k) kcs"

text \<open>\<open>idxmax()\<close> is the label of the first entry that holds the greatest count; it raises
  ValueError on an empty series.\<close>

fun argmax_from :: "string \<times> nat \<Rightarrow> (string \<times> nat) list \<Rightarrow> string \<times> nat" where
  "argmax_from best [] = best"
| "argmax_from best (kc # kcs) = argmax_from (if snd best < snd kc then kc else best) kcs"

definition idxmax :: "(string \<times> nat) list \<Rightarrow> py_exception + string" where
  "idxmax kcs =
     (case kcs of
        [] \<Rightarrow> Inl (ValueError ''attempt to get argmax of an empty sequence'')
      | kc # rest \<Rightarrow> Inr (fst (argmax_from kc rest)))"

text \<open>The quotient \<open>correct / total\<close> is taken in the reals: the rounding of the float
  division is not modelled.\<close>

definition compute_metrics ::
  "dataframe \<Rightarrow> py_exception + (nat \<times> real \<times> (string \<times> nat) list \<times> string)" where
  "compute_metrics df =
     (let total = length (rows df)
      in case df_getitem df ''error_label'' of
           Inl e \<Rightarrow> Inl e
         | Inr labels \<Rightarrow>
             (let correct = length (filter (\<lambda>c. c = Text ''CORRECT'') labels);
                  accuracy = (if total \<noteq> 0 then real correct / real total else 0);
                  error_counts = value_counts labels;
                  tmp = series_drop ''CORRECT'' error_counts
              in case (if tmp \<noteq> [] then idxmax tmp else Inr ''CORRECT'') of
                   Inl e \<Rightarrow> Inl e
                 | Inr most_common \<Rightarrow> Inr (total, accuracy, error_counts, most_common)))"

subsection \<open>The step-through viewer of main\<close>

text \<open>\<open>df.iloc[i]\<close>: a negative position counts from the end, and a position outside the
  table raises IndexError.\<close>

definition iloc :: "dataframe \<Rightarrow> int \<Rightarrow> py_exception + (string \<times> cell) list" where
  "iloc df i =
     (let n = int (length (rows df))
      in if - n \<le> i \<and> i < n then Inr (rows df ! nat (if i < 0 then n + i else i))
         else Inl (IndexError ''single positional indexer is out-of-bounds''))"

definition df_empty :: "dataframe \<Rightarrow> bool" where
  "df_empty df = (rows df = [] \<or> columns df = [])"

text \<open>
  What one run of the script leaves on the page: the \<open>disabled\<close> flag that each of the
  two buttons was given, and the row that \<open>df.iloc[idx]\<close> gave or the exception it raised.
\<close>

record page =
  prev_disabled :: bool
  next_disabled :: bool
  showing :: "py_exception + (string \<times> cell) list"

text \<open>
  One run of \<open>main\<close> in \<open>app.py\<close>, as far as the index is concerned. \<open>deep_index\<close> is the
  entry of the session state (\<open>None\<close> before the first run), and \<open>prev_pressed\<close> and
  \<open>next_pressed\<close> are what the two calls of \<open>st.button\<close> return in this run. The run
  ends without a page when the table is empty or \<open>compute_metrics\<close> raises. Each flag is
  computed from the index as it is when the button is created, before the button's own
  update of the index.
\<close>

definition app_main ::
  "dataframe \<Rightarrow> int option \<Rightarrow> bool \<Rightarrow> bool \<Rightarrow> int option \<times> page option" where
  "app_main df deep_index prev_pressed next_pressed =
     (if df_empty df then (deep_index, None)
      else case compute_metrics df of
             Inl e \<Rightarrow> (deep_index, None)
           | Inr metrics \<Rightarrow>
               (let i0 = (case deep_index of None \<Rightarrow> 0 | Some i \<Rightarrow> i);
                    prev_off = (i0 \<le> 0);
                    i1 = (if prev_pressed then i0 - 1 else i0);
                    next_off = (i1 \<ge> int (length (rows df)) - 1);
                    i2 = (if next_pressed then i1 + 1 else i1)
                in (Some i2,
                    Some \<lparr>prev_disabled = prev_off, next_disabled = next_off,
                          showing = iloc df i2\<rparr>)))"

text \<open>
  The session around the runs. Streamlit runs the script again after every click, and in
  that run the clicked button returns \<open>True\<close>: the value is the click that the browser
  sent, whatever \<open>disabled\<close> flag the button is given in the new run. The user can click
  only a button that the page on the screen shows enabled, and that page is the one the
  previous run left. \<open>browse\<close> is \<open>None\<close> for a sequence of clicks that the user cannot
  make.
\<close>

datatype click = Previous | Next

fun clickable :: "page option \<Rightarrow> click \<Rightarrow> bool" where
  "clickable None c = False"
| "clickable (Some p) Previous = (\<not> prev_disabled p)"
| "clickable (Some p) Next = (\<not> next_disabled p)"

definition open_viewer :: "dataframe \<Rightarrow> int option \<times> page option" where
  "open_viewer df = app_main df None False False"

fun browse ::
  "dataframe \<Rightarrow> int option \<times> page option \<Rightarrow> click list \<Rightarrow> (int option \<times> page option) option" where
  "browse df s [] = Some s"
| "browse df s (c # cs) =
     (if clickable (snd s) c
      then browse df (app_main df (fst s) (c = Previous) (c = Next)) cs
      else None)"

section \<open>Concrete tables and worlds\<close>

text \<open>Inputs on which the theorems below are exercised.\<close>

definition one_row_table :: dataframe where
  "one_row_table =
     \<lparr>columns = [''question'', ''answer''],
      rows = [[(''question'', Text ''Q1''), (''answer'', Text ''A1'')]]\<rparr>"

definition sample_table :: dataframe where
  "sample_table =
     \<lparr>columns = [''question'', ''answer'', ''question_type''],
      rows = [[(''question'', Text ''Q1''), (''answer'', Text ''A1''), (''question_type'', Text ''basic'')],
              [(''question'', Text ''Q2''), (''answer'', Text ''A2''), (''question_type'', Text ''assumption'')]]\<rparr>"

definition one_row_series :: series where
  "one_row_series =
     \<lparr>index = [''question'', ''answer''],
      cells = [(''question'', Text ''Q1''), (''answer'', Text ''A1'')]\<rparr>"

definition foo_record :: labeled_record where
  "foo_record =
     \<lparr>col_question = Text ''Q1'', col_answer = Text ''A1'', col_context = Text [],
      col_question_type = Text [], col_company = Text [], col_file_link = Text [],
      col_file_name = Text [], col_model_answer = ''42'',
      col_error_label = JString ''UNKNOWN'', col_error_rationale = JString ''none''\<rparr>"

text \<open>The judge answers with a well-formed object whose label is not in the list.\<close>

definition world_foo :: world where
  "world_foo =
     \<lparr>target_content = (\<lambda>i q c. Inr (Some ''42'')),
      judge_content = (\<lambda>i q t m. Inr (Some ''FOO'')),
      json_loads = (\<lambda>s. Inr (JObject [(''label'', JString ''FOO''), (''rationale'', JString ''none'')]))\<rparr>"

text \<open>Both responders fail on every call.\<close>

definition world_down :: world where
  "world_down =
     \<lparr>target_content = (\<lambda>i q c. Inl (OtherException ''Connection error.'')),
      judge_content = (\<lambda>i q t m. Inl (OtherException ''Connection error.'')),
      json_loads = (\<lambda>s. Inl (JSONDecodeError ''Expecting value''))\<rparr>"

text \<open>The judge fails with an exception that has no message.\<close>

definition world_silent :: world where
  "world_silent =
     \<lparr>target_content = (\<lambda>i q c. Inr (Some ''42'')),
      judge_content = (\<lambda>i q t m. Inl (OtherException [])),
      json_loads = (\<lambda>s. Inl (JSONDecodeError ''Expecting value''))\<rparr>"

text \<open>The target fails on the first sample only; the judge labels every answer.\<close>

definition world_flaky :: world where
  "world_flaky =
     \<lparr>target_content = (\<lambda>i q c. if i = 0 then Inl (OtherException ''Request timed out.'')
                                  else Inr (Some ''42'')),
      judge_content = (\<lambda>i q t m. Inr (Some ''verdict'')),
      json_loads = (\<lambda>s. Inr (JObject [(''label'', JString ''NON_ANSWER_OR_GENERIC''),
                                        (''rationale'', JString ''no answer'')]))\<rparr>"

text \<open>The records that the loop writes for the one-row table in these worlds.\<close>

definition down_record :: labeled_record where
  "down_record =
     \<lparr>col_question = Text ''Q1'', col_answer = Text ''A1'', col_context = Text [],
      col_question_type = Text [], col_company = Text [], col_file_link = Text [],
      col_file_name = Text [], col_model_answer = [],
      col_error_label = JString ''UNKNOWN'', col_error_rationale = JString ''Connection error.''\<rparr>"

definition silent_record :: labeled_record where
  "silent_record =
     \<lparr>col_question = Text ''Q1'', col_answer = Text ''A1'', col_context = Text [],
      col_question_type = Text [], col_company = Text [], col_file_link = Text [],
      col_file_name = Text [], col_model_answer = ''42'',
      col_error_label = JString ''UNKNOWN'', col_error_rationale = JString []\<rparr>"

text \<open>A source with a row of another category, and a source without the category column
  whose cells would not pass the filter.\<close>

definition mixed_table :: dataframe where
  "mixed_table =
     \<lparr>columns = [''question'', ''answer'', ''question_type''],
      rows = [[(''question'', Text ''Q1''), (''answer'', Text ''A1''), (''question_type'', Text ''basic'')],
              [(''question'', Text ''Q2''), (''answer'', Text ''A2''), (''question_type'', Text ''conceptual'')],
              [(''question'', Text ''Q3''), (''answer'', Text ''A3''), (''question_type'', Text ''assumption'')]]\<rparr>"

definition untyped_table :: dataframe where
  "untyped_table =
     \<lparr>columns = [''question'', ''answer''],
      rows = [[(''question'', Text ''Q1''), (''answer'', Text ''A1'')],
              [(''question'', Text ''Q2''), (''answer'', Text ''A2'')]]\<rparr>"

text \<open>Labeled tables for the viewer.\<close>

definition labeled_row :: "string \<Rightarrow> (string \<times> cell) list" where
  "labeled_row l = [(''question'', Text ''Q''), (''error_label'', Text l)]"

definition counts_table :: dataframe where
  "counts_table =
     \<lparr>columns = [''question'', ''error_label''],
      rows = replicate 20 (labeled_row ''CORRECT'')
             @ replicate 2 (labeled_row ''WRONG_METRIC_OR_CONCEPT'')
             @ replicate 5 (labeled_row ''ARITHMETIC_ERROR'')\<rparr>"

definition ten_row_table :: dataframe where
  "ten_row_table =
     \<lparr>columns = [''question'', ''error_label''],
      rows = replicate 6 (labeled_row ''CORRECT'') @ replicate 4 (labeled_row ''UNKNOWN'')\<rparr>"

definition all_correct_table :: dataframe where
  "all_correct_table =
     \<lparr>columns = [''question'', ''error_label''],
      rows = replicate 3 (labeled_row ''CORRECT'')\<rparr>"

definition two_row_labeled :: dataframe where
  "two_row_labeled =
     \<lparr>columns = [''question'', ''error_label''],
      rows = [labeled_row ''CORRECT'', labeled_row ''ARITHMETIC_ERROR'']\<rparr>"

definition three_row_labeled :: dataframe where
  "three_row_labeled =
     \<lparr>columns = [''question'', ''error_label''],
      rows = [labeled_row ''CORRECT'', labeled_row ''ARITHMETIC_ERROR'', labeled_row ''UNKNOWN'']\<rparr>"

section \<open>Properties of the labeling script\<close>

lemma label_failure_returns:
  "\<exists>l r. label_failure w i q t a = Inr (l, r) \<and> l \<in> JString ` (set ERROR_LABELS \<union> {''UNKNOWN''})"
  by (auto simp: label_failure_def Let_def split: prod.splits sum.splits py_exception.splits)

lemma label_row_returns:
  assumes "''question'' \<in> set (index row)" "''answer'' \<in> set (index row)"
  shows "\<exists>r. label_row w i row = Inr r"
  using assms
  by (simp add: label_row_def series_getitem_def Let_def split: prod.splits sum.splits)

lemma label_row_InrE:
  assumes "label_row w i row = Inr r"
  obtains q a where
    "series_getitem row ''question'' = Inr q"
    "series_getitem row ''answer'' = Inr a"
    "col_model_answer r =
       (case call_target_model w i q (series_get row ''context'' (Text [])) of
          Inl e \<Rightarrow> [] | Inr m \<Rightarrow> m)"
    "label_failure w i q a (col_model_answer r) = Inr (col_error_label r, col_error_rationale r)"
proof -
  from assms obtain q where q: "series_getitem row ''question'' = Inr q"
    by (auto simp: label_row_def split: sum.splits)
  from assms q obtain a where a: "series_getitem row ''answer'' = Inr a"
    by (auto simp: label_row_def split: sum.splits)
  define m where "m = (case call_target_model w i q (series_get row ''context'' (Text [])) of
          Inl e \<Rightarrow> [] | Inr m \<Rightarrow> m)"
  obtain l t where lt: "label_failure w i q a m = Inr (l, t)"
    using label_failure_returns[of w i q a m] by blast
  have "col_model_answer r = m \<and> col_error_label r = l \<and> col_error_rationale r = t"
    using assms q a lt unfolding label_row_def Let_def m_def
    by (auto split: sum.splits)
  with q a lt that show thesis
    unfolding m_def by metis
qed

lemma label_row_label:
  assumes "label_row w i row = Inr r"
  shows "col_error_label r \<in> JString ` (set ERROR_LABELS \<union> {''UNKNOWN''})"
proof -
  from assms obtain q a where
    "label_failure w i q a (col_model_answer r) = Inr (col_error_label r, col_error_rationale r)"
    by (rule label_row_InrE)
  with label_failure_returns[of w i q a "col_model_answer r"] show ?thesis
    by auto
qed

lemma label_rows_length:
  "label_rows w i srs = Inr records \<Longrightarrow> length records = length srs"
  by (induction srs arbitrary: i records) (auto split: sum.splits)

lemma label_rows_nth:
  "label_rows w i srs = Inr records \<Longrightarrow> k < length srs \<Longrightarrow>
     label_row w (i + k) (srs ! k) = Inr (records ! k)"
proof (induction srs arbitrary: i records k)
  case Nil
  then show ?case by simp
next
  case (Cons row rest)
  from Cons.prems(1) obtain r rs where
    r: "label_row w i row = Inr r" and rs: "label_rows w (Suc i) rest = Inr rs"
    and records: "records = r # rs"
    by (auto split: sum.splits)
  show ?case
  proof (cases k)
    case 0
    with r records show ?thesis by simp
  next
    case (Suc j)
    with Cons.prems(2) have "j < length rest" by simp
    from Cons.IH[OF rs this] Suc records show ?thesis by simp
  qed
qed

lemma label_rows_returns:
  "\<forall>row \<in> set srs. ''question'' \<in> set (index row) \<and> ''answer'' \<in> set (index row) \<Longrightarrow>
     \<exists>records. label_rows w i srs = Inr records"
proof (induction srs arbitrary: i)
  case Nil
  then show ?case by simp
next
  case (Cons row rest)
  then obtain r where "label_row w i row = Inr r"
    using label_row_returns[of row w i] by auto
  moreover from Cons obtain rs where "label_rows w (Suc i) rest = Inr rs"
    by fastforce
  ultimately show ?case by simp
qed

lemma label_rows_set:
  "label_rows w i srs = Inr records \<Longrightarrow> r \<in> set records \<Longrightarrow>
     \<exists>k < length srs. label_row w (i + k) (srs ! k) = Inr r"
  by (metis in_set_conv_nth label_rows_length label_rows_nth)

lemma iterrows_index: "row \<in> set (iterrows df) \<Longrightarrow> index row = columns df"
  by (auto simp: iterrows_def)

lemma label_rows_table_returns:
  assumes "''question'' \<in> set (columns df)" "''answer'' \<in> set (columns df)"
  shows "\<exists>records. label_rows w i (iterrows df) = Inr records \<and> length records = length (rows df)"
proof -
  have "\<forall>row \<in> set (iterrows df). ''question'' \<in> set (index row) \<and> ''answer'' \<in> set (index row)"
    using assms by (simp add: iterrows_index)
  then obtain records where r: "label_rows w i (iterrows df) = Inr records"
    using label_rows_returns by blast
  from label_rows_length[OF r] have "length records = length (rows df)"
    by (simp add: iterrows_def)
  with r show ?thesis by blast
qed

lemma main_label:
  assumes "main api_key perm ds w = Inr records" "r \<in> set records"
  shows "col_error_label r \<in> JString ` (set ERROR_LABELS \<union> {''UNKNOWN''})"
proof -
  from assms(1) obtain df where "label_rows w 0 (iterrows df) = Inr records"
    by (auto simp: main_def split: sum.splits)
  from label_rows_set[OF this assms(2)] show ?thesis
    using label_row_label by blast
qed

lemmas labeling_defs =
  main_def get_client_def load_financeqa_sample_def category_mask_def isin_def
  N_EXAMPLES_def sample_frac1_def sample_n_def take_rows_def iterrows_def
  label_row_def series_getitem_def series_get_def cell_at_def call_target_model_def
  strip_def is_space_def label_failure_def label_failure_try_def
  data_get_def ERROR_LABELS_def Let_def

text \<open>
  C1. Every record that a run of the pipeline produces has an \<open>error_label\<close> that is
  one of the seven declared labels or \<open>UNKNOWN\<close>. In particular, when the judge's
  content parses to an object whose \<open>label\<close> is not one of the seven, the record of
  that sample stores \<open>UNKNOWN\<close>.
\<close>

theorem error_label_in_closed_set:
  "(main api_key perm ds w = Inr records \<longrightarrow>
      (\<forall>r \<in> set records. col_error_label r \<in> JString ` (set ERROR_LABELS \<union> {''UNKNOWN''})))
   \<and> (label_row w i row = Inr r
        \<and> series_getitem row ''question'' = Inr q
        \<and> series_getitem row ''answer'' = Inr a
        \<and> judge_content w i q a (col_model_answer r) = Inr (Some content)
        \<and> content \<noteq> []
        \<and> json_loads w content = Inr (JObject kvs)
        \<and> map_of kvs ''label'' = Some l
        \<and> l \<notin> JString ` set ERROR_LABELS
      \<longrightarrow> col_error_label r = JString ''UNKNOWN'')"
proof (intro conjI impI ballI)
  fix r' assume "main api_key perm ds w = Inr records" "r' \<in> set records"
  then show "col_error_label r' \<in> JString ` (set ERROR_LABELS \<union> {''UNKNOWN''})"
    by (rule main_label)
next
  assume h: "label_row w i row = Inr r
        \<and> series_getitem row ''question'' = Inr q
        \<and> series_getitem row ''answer'' = Inr a
        \<and> judge_content w i q a (col_model_answer r) = Inr (Some content)
        \<and> content \<noteq> []
        \<and> json_loads w content = Inr (JObject kvs)
        \<and> map_of kvs ''label'' = Some l
        \<and> l \<notin> JString ` set ERROR_LABELS"
  then obtain c cs where content: "content = c # cs"
    by (cases content) auto
  from h obtain q' a' where
    q': "series_getitem row ''question'' = Inr q'" and a': "series_getitem row ''answer'' = Inr a'"
    and lf: "label_failure w i q' a' (col_model_answer r) = Inr (col_error_label r, col_error_rationale r)"
    by (blast elim: label_row_InrE)
  from h q' a' have "q' = q" "a' = a" by simp_all
  with lf have "label_failure w i q a (col_model_answer r) = Inr (col_error_label r, col_error_rationale r)"
    by simp
  moreover have "\<exists>t. label_failure w i q a (col_model_answer r) = Inr (JString ''UNKNOWN'', t)"
    using h content
    by (auto simp: label_failure_def label_failure_try_def data_get_def Let_def
        split: option.splits)
  ultimately show "col_error_label r = JString ''UNKNOWN''"
    by auto
qed

lemma main_foo:
  "main (Some ''sk'') (\<lambda>m. rev [0..<m]) one_row_table world_foo = Inr [foo_record]"
  by (simp add: labeling_defs one_row_table_def world_foo_def foo_record_def)

theorem error_label_in_closed_set_witness:
  "main (Some ''sk'') (\<lambda>m. rev [0..<m]) one_row_table world_foo = Inr [foo_record]
   \<and> label_row world_foo 0 one_row_series = Inr foo_record
   \<and> series_getitem one_row_series ''question'' = Inr (Text ''Q1'')
   \<and> series_getitem one_row_series ''answer'' = Inr (Text ''A1'')
   \<and> judge_content world_foo 0 (Text ''Q1'') (Text ''A1'') (col_model_answer foo_record) = Inr (Some ''FOO'')
   \<and> json_loads world_foo ''FOO'' = Inr (JObject [(''label'', JString ''FOO''), (''rationale'', JString ''none'')])
   \<and> map_of [(''label'', JString ''FOO''), (''rationale'', JString ''none'')] ''label'' = Some (JString ''FOO'')
   \<and> JString ''FOO'' \<notin> JString ` set ERROR_LABELS
   \<and> col_error_label foo_record = JString ''UNKNOWN''
   \<and> col_error_label foo_record \<in> JString ` (set ERROR_LABELS \<union> {''UNKNOWN''})"
  using main_foo
    error_label_in_closed_set [of "Some ''sk''" "\<lambda>m. rev [0..<m]" one_row_table world_foo
      "[foo_record]" 0 one_row_series foo_record "Text ''Q1''" "Text ''A1''" "''FOO''"
      "[(''label'', JString ''FOO''), (''rationale'', JString ''none'')]" "JString ''FOO''"]
  by (simp add: labeling_defs world_foo_def one_row_series_def foo_record_def)

text \<open>
  C2. For a sample whose table has the columns \<open>question\<close> and \<open>answer\<close>, the loop
  returns one record per sampled row, whatever the two responders do. When the target
  call and the judge call fail on every sample, every record is still there, with the
  empty answer and the label \<open>UNKNOWN\<close>.
\<close>

theorem output_count_equals_sample_count:
  assumes "''question'' \<in> set (columns df)" and "''answer'' \<in> set (columns df)"
  shows "\<exists>records. label_rows w 0 (iterrows df) = Inr records
           \<and> length records = length (rows df)
           \<and> ((\<forall>i q c. isl (call_target_model w i q c)) \<and> (\<forall>i q t m. isl (judge_content w i q t m))
                \<longrightarrow> (\<forall>r \<in> set records. col_model_answer r = [] \<and> col_error_label r = JString ''UNKNOWN''))"
proof -
  from label_rows_table_returns[OF assms] obtain records where
    r: "label_rows w 0 (iterrows df) = Inr records" and len: "length records = length (rows df)"
    by blast
  have "col_model_answer r' = [] \<and> col_error_label r' = JString ''UNKNOWN''"
    if down: "\<forall>i q c. isl (call_target_model w i q c)" "\<forall>i q t m. isl (judge_content w i q t m)"
      and mem: "r' \<in> set records" for r'
  proof -
    from label_rows_set[OF r mem] obtain k where
      k: "label_row w (0 + k) (iterrows df ! k) = Inr r'" by blast
    from k obtain q a where
      m: "col_model_answer r' =
            (case call_target_model w (0 + k) q (series_get (iterrows df ! k) ''context'' (Text [])) of
               Inl e \<Rightarrow> [] | Inr m \<Rightarrow> m)"
      and lf: "label_failure w (0 + k) q a (col_model_answer r') = Inr (col_error_label r', col_error_rationale r')"
      by (rule label_row_InrE)
    from down(1) have
      "isl (call_target_model w (0 + k) q (series_get (iterrows df ! k) ''context'' (Text [])))"
      by blast
    then obtain e0 where
      "call_target_model w (0 + k) q (series_get (iterrows df ! k) ''context'' (Text [])) = Inl e0"
      by (auto simp: isl_def)
    with m have m0: "col_model_answer r' = []"
      by simp
    from down(2) have "isl (judge_content w (0 + k) q a (col_model_answer r'))"
      by blast
    then obtain e where "judge_content w (0 + k) q a (col_model_answer r') = Inl e"
      by (auto simp: isl_def)
    then have "\<exists>t. label_failure w (0 + k) q a (col_model_answer r') = Inr (JString ''UNKNOWN'', t)"
      by (cases e) (simp_all add: label_failure_def label_failure_try_def Let_def)
    with lf m0 show ?thesis by auto
  qed
  with r len show ?thesis by blast
qed

theorem output_count_equals_sample_count_witness:
  "''question'' \<in> set (columns sample_table) \<and> ''answer'' \<in> set (columns sample_table)
   \<and> isl (call_target_model world_down 7 (Text ''Q1'') NaN)
   \<and> isl (judge_content world_down 7 (Text ''Q1'') (Text ''A1'') [])
   \<and> (\<exists>records. label_rows world_down 0 (iterrows sample_table) = Inr records
        \<and> length records = length (rows sample_table)
        \<and> length records = 2
        \<and> map col_model_answer records = [[], []]
        \<and> map col_error_label records = [JString ''UNKNOWN'', JString ''UNKNOWN''])"
  using output_count_equals_sample_count [of sample_table world_down]
  by (simp add: labeling_defs sample_table_def world_down_def)

text \<open>
  C3, as the code has it. When the judge call of a sample raises, the record stores the
  label \<open>UNKNOWN\<close>, and its rationale is the text of the exception: \<open>str(e)\<close>, after
  the prefix \<open>JSON decode error: \<close> when the exception is a JSON decode error. The
  rationale is therefore non-empty whenever the exception has a message, and always for a
  JSON decode error.
\<close>

theorem judge_failure_stores_unknown_and_message:
  assumes "label_row w i row = Inr r"
    and "series_getitem row ''question'' = Inr q"
    and "series_getitem row ''answer'' = Inr a"
    and "judge_content w i q a (col_model_answer r) = Inl e"
  shows "col_error_label r = JString ''UNKNOWN''
         \<and> col_error_rationale r =
             JString (case e of JSONDecodeError m \<Rightarrow> ''JSON decode error: '' @ m | _ \<Rightarrow> exc_str e)
         \<and> (exc_str e \<noteq> [] \<longrightarrow> col_error_rationale r \<noteq> JString [])"
proof -
  from assms(1) obtain q' a' where
    "series_getitem row ''question'' = Inr q'" "series_getitem row ''answer'' = Inr a'"
    "label_failure w i q' a' (col_model_answer r) = Inr (col_error_label r, col_error_rationale r)"
    by (rule label_row_InrE)
  with assms(2,3) have
    lf: "label_failure w i q a (col_model_answer r) = Inr (col_error_label r, col_error_rationale r)"
    by simp
  have "label_failure w i q a (col_model_answer r) =
          Inr (JString ''UNKNOWN'',
               JString (case e of JSONDecodeError m \<Rightarrow> ''JSON decode error: '' @ m | _ \<Rightarrow> exc_str e))"
    using assms(4)
    by (cases e) (simp_all add: label_failure_def label_failure_try_def Let_def ERROR_LABELS_def)
  with lf have "col_error_label r = JString ''UNKNOWN''"
    and rat: "col_error_rationale r =
             JString (case e of JSONDecodeError m \<Rightarrow> ''JSON decode error: '' @ m | _ \<Rightarrow> exc_str e)"
    by simp_all
  moreover from rat have "exc_str e \<noteq> [] \<longrightarrow> col_error_rationale r \<noteq> JString []"
    by (cases e) simp_all
  ultimately show ?thesis by blast
qed

theorem judge_failure_stores_unknown_and_message_witness:
  "label_row world_down 0 one_row_series = Inr down_record
   \<and> series_getitem one_row_series ''question'' = Inr (Text ''Q1'')
   \<and> series_getitem one_row_series ''answer'' = Inr (Text ''A1'')
   \<and> judge_content world_down 0 (Text ''Q1'') (Text ''A1'') (col_model_answer down_record)
       = Inl (OtherException ''Connection error.'')
   \<and> exc_str (OtherException ''Connection error.'') \<noteq> []
   \<and> col_error_label down_record = JString ''UNKNOWN''
   \<and> col_error_rationale down_record = JString ''Connection error.''
   \<and> col_error_rationale down_record \<noteq> JString []"
  using judge_failure_stores_unknown_and_message
    [of world_down 0 one_row_series down_record "Text ''Q1''" "Text ''A1''"
      "OtherException ''Connection error.''"]
  by (simp add: labeling_defs world_down_def one_row_series_def down_record_def)

text \<open>
  C3 as the specification states it fails: a judge call that raises an exception without
  a message leaves the stored rationale empty.
\<close>

theorem judge_failure_empty_rationale:
  "judge_content world_silent 0 (Text ''Q1'') (Text ''A1'') ''42'' = Inl (OtherException [])
   \<and> label_rows world_silent 0 (iterrows one_row_table) = Inr [silent_record]
   \<and> col_model_answer silent_record = ''42''
   \<and> col_error_label silent_record = JString ''UNKNOWN''
   \<and> col_error_rationale silent_record = JString []"
  by (simp add: labeling_defs world_silent_def one_row_table_def silent_record_def)

text \<open>
  C7. For a sample table with the columns \<open>question\<close> and \<open>answer\<close>, the loop returns
  a record for every row. At every position where the target call raises, the record
  stores the empty string as \<open>model_answer\<close>, and its label and rationale are what
  \<open>label_failure\<close> returns for that sample when it is given the empty answer.
\<close>

theorem target_failure_is_caught_and_batch_continues:
  assumes "''question'' \<in> set (columns df)" and "''answer'' \<in> set (columns df)"
  shows "\<exists>records. label_rows w 0 (iterrows df) = Inr records
           \<and> length records = length (rows df)
           \<and> (\<forall>k < length (rows df).
                 isl (call_target_model w k (cell_at (rows df ! k) ''question'')
                        (series_get (iterrows df ! k) ''context'' (Text [])))
                 \<longrightarrow> col_model_answer (records ! k) = []
                      \<and> label_failure w k (cell_at (rows df ! k) ''question'')
                            (cell_at (rows df ! k) ''answer'') []
                          = Inr (col_error_label (records ! k), col_error_rationale (records ! k)))"
proof -
  from label_rows_table_returns[OF assms] obtain records where
    r: "label_rows w 0 (iterrows df) = Inr records" and len: "length records = length (rows df)"
    by blast
  have "col_model_answer (records ! k) = []
        \<and> label_failure w k (cell_at (rows df ! k) ''question'') (cell_at (rows df ! k) ''answer'') []
            = Inr (col_error_label (records ! k), col_error_rationale (records ! k))"
    if k: "k < length (rows df)"
      and fails: "isl (call_target_model w k (cell_at (rows df ! k) ''question'')
                        (series_get (iterrows df ! k) ''context'' (Text [])))"
    for k
  proof -
    from k have k': "k < length (iterrows df)" by (simp add: iterrows_def)
    from label_rows_nth[OF r k'] have row: "label_row w k (iterrows df ! k) = Inr (records ! k)"
      by simp
    from k have ix: "index (iterrows df ! k) = columns df" "cells (iterrows df ! k) = rows df ! k"
      by (simp_all add: iterrows_def)
    from row obtain q a where
      q: "series_getitem (iterrows df ! k) ''question'' = Inr q"
      and a: "series_getitem (iterrows df ! k) ''answer'' = Inr a"
      and m: "col_model_answer (records ! k) =
            (case call_target_model w k q (series_get (iterrows df ! k) ''context'' (Text [])) of
               Inl e \<Rightarrow> [] | Inr m \<Rightarrow> m)"
      and lf: "label_failure w k q a (col_model_answer (records ! k))
                 = Inr (col_error_label (records ! k), col_error_rationale (records ! k))"
      by (rule label_row_InrE)
    from q ix assms(1) have q': "q = cell_at (rows df ! k) ''question''"
      by (simp add: series_getitem_def)
    from a ix assms(2) have a': "a = cell_at (rows df ! k) ''answer''"
      by (simp add: series_getitem_def)
    from fails obtain e where
      "call_target_model w k (cell_at (rows df ! k) ''question'')
         (series_get (iterrows df ! k) ''context'' (Text [])) = Inl e"
      by (auto simp: isl_def)
    with m q' have m0: "col_model_answer (records ! k) = []"
      by simp
    with lf q' a' show ?thesis by simp
  qed
  with r len show ?thesis by blast
qed

theorem target_failure_is_caught_and_batch_continues_witness:
  "''question'' \<in> set (columns sample_table) \<and> ''answer'' \<in> set (columns sample_table)
   \<and> (0::nat) < length (rows sample_table)
   \<and> isl (call_target_model world_flaky 0 (cell_at (rows sample_table ! 0) ''question'')
            (series_get (iterrows sample_table ! 0) ''context'' (Text [])))
   \<and> (\<exists>records. label_rows world_flaky 0 (iterrows sample_table) = Inr records
        \<and> length records = 2
        \<and> map col_model_answer records = [[], ''42'']
        \<and> label_failure world_flaky 0 (Text ''Q1'') (Text ''A1'') []
            = Inr (col_error_label (records ! 0), col_error_rationale (records ! 0))
        \<and> map col_error_label records
            = [JString ''NON_ANSWER_OR_GENERIC'', JString ''NON_ANSWER_OR_GENERIC''])"
  using target_failure_is_caught_and_batch_continues [of sample_table world_flaky]
  by (simp add: labeling_defs sample_table_def world_flaky_def)

section \<open>Properties of the sampler\<close>

lemma mset_map_nth_perm:
  assumes "mset p = mset [0..<length xs]"
  shows "mset (map (\<lambda>i. xs ! i) p) = mset xs"
proof -
  have "mset (map (\<lambda>i. xs ! i) p) = image_mset (\<lambda>i. xs ! i) (mset p)"
    by simp
  also have "\<dots> = image_mset (\<lambda>i. xs ! i) (mset [0..<length xs])"
    using assms by simp
  also have "\<dots> = mset (map (\<lambda>i. xs ! i) [0..<length xs])"
    by simp
  also have "\<dots> = mset xs"
    by (simp add: map_nth)
  finally show ?thesis .
qed

lemma mset_take_subseteq: "mset (take k p) \<subseteq># mset p"
proof -
  have "mset p = mset (take k p) + mset (drop k p)"
    by (metis append_take_drop_id mset_append)
  then show ?thesis by simp
qed

lemma mset_map_nth_take_perm:
  assumes "mset p = mset [0..<length xs]"
  shows "mset (map (\<lambda>i. xs ! i) (take k p)) \<subseteq># mset xs"
proof -
  have "image_mset (\<lambda>i. xs ! i) (mset (take k p)) \<subseteq># image_mset (\<lambda>i. xs ! i) (mset p)"
    by (rule image_mset_subseteq_mono) (rule mset_take_subseteq)
  then show ?thesis
    using mset_map_nth_perm[OF assms] by simp
qed

lemma perm_length:
  assumes "mset p = mset [0..<m]"
  shows "length p = m"
  using assms by (metis length_upt mset_eq_length minus_nat.diff_0)

text \<open>Both branches of the sampler take a prefix of the same permutation.\<close>

lemma load_financeqa_sample_rows:
  assumes "0 \<le> n"
    and "mset (perm (length (rows (category_mask ds)))) = mset [0..<length (rows (category_mask ds))]"
  shows "\<exists>out. load_financeqa_sample perm ds n = Inr out
           \<and> columns out = columns (category_mask ds)
           \<and> rows out = map (\<lambda>i. rows (category_mask ds) ! i)
                          (take (nat n) (perm (length (rows (category_mask ds)))))"
proof -
  let ?df = "category_mask ds"
  let ?M = "length (rows ?df)"
  have len: "length (perm ?M) = ?M"
    using assms(2) by (rule perm_length)
  show ?thesis
  proof (cases "int ?M \<le> n")
    case True
    with len have "take (nat n) (perm ?M) = perm ?M" "take ?M (perm ?M) = perm ?M"
      by simp_all
    with True show ?thesis
      by (simp add: load_financeqa_sample_def sample_frac1_def take_rows_def Let_def)
  next
    case False
    with assms(1) show ?thesis
      by (simp add: load_financeqa_sample_def sample_n_def take_rows_def Let_def)
  qed
qed

lemma category_mask_rows:
  "rows (category_mask ds) =
     (if ''question_type'' \<in> set (columns ds)
      then filter (\<lambda>r. cell_at r ''question_type'' \<in> {Text ''basic'', Text ''assumption''}) (rows ds)
      else rows ds)"
proof -
  have "isin c [''basic'', ''assumption''] \<longleftrightarrow> c \<in> {Text ''basic'', Text ''assumption''}" for c
    by (cases c) (auto simp: isin_def)
  then show ?thesis
    by (simp add: category_mask_def)
qed

text \<open>
  C4. For a target count \<open>n \<ge> 0\<close> the sampler returns exactly \<open>min n M\<close> rows, where
  \<open>M\<close> is the number of rows left by the category filter. The rows returned are the rows
  of the filtered table at the first \<open>n\<close> positions of the generator's permutation, in
  that order, so they are drawn without replacement; when the filtered table has at most
  \<open>n\<close> rows, the result is the whole filtered table rearranged by the permutation; an
  empty source gives an empty table. The generator's contract, that it permutes the row
  positions, is a hypothesis.
\<close>

theorem sampler_returns_min_of_count_and_filtered_size:
  assumes "0 \<le> n"
    and "mset (perm (length (rows (category_mask ds)))) = mset [0..<length (rows (category_mask ds))]"
  shows "\<exists>out. load_financeqa_sample perm ds n = Inr out
           \<and> columns out = columns (category_mask ds)
           \<and> rows out = map (\<lambda>i. rows (category_mask ds) ! i)
                          (take (nat n) (perm (length (rows (category_mask ds)))))
           \<and> length (rows out) = min (nat n) (length (rows (category_mask ds)))
           \<and> mset (rows out) \<subseteq># mset (rows (category_mask ds))
           \<and> (int (length (rows (category_mask ds))) \<le> n
                \<longrightarrow> rows out = map (\<lambda>i. rows (category_mask ds) ! i)
                                     (perm (length (rows (category_mask ds))))
                     \<and> mset (rows out) = mset (rows (category_mask ds)))
           \<and> (rows ds = [] \<longrightarrow> rows out = [])"
proof -
  let ?xs = "rows (category_mask ds)"
  let ?p = "perm (length ?xs)"
  from load_financeqa_sample_rows[of n perm ds, OF assms] obtain out where
    out: "load_financeqa_sample perm ds n = Inr out"
    and c: "columns out = columns (category_mask ds)"
    and r: "rows out = map (\<lambda>i. ?xs ! i) (take (nat n) ?p)"
    by blast
  have len: "length ?p = length ?xs"
    using assms(2) by (rule perm_length)
  from r len have 1: "length (rows out) = min (nat n) (length ?xs)"
    by simp
  from r have 2: "mset (rows out) \<subseteq># mset ?xs"
    using mset_map_nth_take_perm[OF assms(2)] by simp
  have 3: "rows out = map (\<lambda>i. ?xs ! i) ?p \<and> mset (rows out) = mset ?xs"
    if "int (length ?xs) \<le> n"
  proof -
    from that len have "take (nat n) ?p = ?p" by simp
    with r have whole: "rows out = map (\<lambda>i. ?xs ! i) ?p" by simp
    have "mset (map (\<lambda>i. ?xs ! i) ?p) = mset ?xs"
      using assms(2) by (rule mset_map_nth_perm)
    with whole have "mset (rows out) = mset ?xs" by simp
    with whole show ?thesis by (intro conjI)
  qed
  have 4: "rows out = []" if "rows ds = []"
  proof -
    from that have "?xs = []"
      by (simp add: category_mask_rows)
    with 1 show ?thesis by simp
  qed
  show ?thesis
  proof (intro exI conjI impI)
    show "load_financeqa_sample perm ds n = Inr out" by (rule out)
    show "columns out = columns (category_mask ds)" by (rule c)
    show "rows out = map (\<lambda>i. ?xs ! i) (take (nat n) ?p)" by (rule r)
    show "length (rows out) = min (nat n) (length ?xs)" by (rule 1)
    show "mset (rows out) \<subseteq># mset ?xs" by (rule 2)
    show "rows out = map (\<lambda>i. ?xs ! i) ?p" if "int (length ?xs) \<le> n"
      using 3[OF that] by (rule conjunct1)
    show "mset (rows out) = mset ?xs" if "int (length ?xs) \<le> n"
      using 3[OF that] by (rule conjunct2)
    show "rows out = []" if "rows ds = []"
      using 4[OF that] .
  qed
qed

theorem sampler_returns_min_of_count_and_filtered_size_witness:
  "(0::int) \<le> 1 \<and> (0::int) \<le> 5
   \<and> mset (rev [0..<length (rows (category_mask mixed_table))])
       = mset [0..<length (rows (category_mask mixed_table))]
   \<and> length (rows mixed_table) = 3
   \<and> length (rows (category_mask mixed_table)) = 2
   \<and> (\<exists>out. load_financeqa_sample (\<lambda>m. rev [0..<m]) mixed_table 1 = Inr out
         \<and> rows out = [[(''question'', Text ''Q3''), (''answer'', Text ''A3''),
                         (''question_type'', Text ''assumption'')]])
   \<and> (\<exists>out. load_financeqa_sample (\<lambda>m. rev [0..<m]) mixed_table 5 = Inr out
         \<and> rows out = [[(''question'', Text ''Q3''), (''answer'', Text ''A3''),
                         (''question_type'', Text ''assumption'')],
                        [(''question'', Text ''Q1''), (''answer'', Text ''A1''),
                         (''question_type'', Text ''basic'')]])"
  using sampler_returns_min_of_count_and_filtered_size [of 1 "\<lambda>m. rev [0..<m]" mixed_table]
    sampler_returns_min_of_count_and_filtered_size [of 5 "\<lambda>m. rev [0..<m]" mixed_table]
  by (auto simp add: category_mask_def mixed_table_def isin_def cell_at_def)

text \<open>
  C10. When the source has no \<open>question_type\<close> column, the sampler draws from all rows
  of the source: the result has \<open>min n\<close> of the size of the source rows, all of them
  rows of the source, and it is the whole source when the source has at most \<open>n\<close> rows.
  When the column is present, the rows are drawn from those whose \<open>question_type\<close> is
  \<open>basic\<close> or \<open>assumption\<close> only.
\<close>

theorem sampler_filters_only_when_column_present:
  assumes "0 \<le> n"
    and "mset (perm (length (rows (category_mask ds)))) = mset [0..<length (rows (category_mask ds))]"
  shows "\<exists>out. load_financeqa_sample perm ds n = Inr out
           \<and> (''question_type'' \<notin> set (columns ds) \<longrightarrow>
                 category_mask ds = ds
                 \<and> length (rows out) = min (nat n) (length (rows ds))
                 \<and> mset (rows out) \<subseteq># mset (rows ds)
                 \<and> (int (length (rows ds)) \<le> n \<longrightarrow> mset (rows out) = mset (rows ds)))
           \<and> (''question_type'' \<in> set (columns ds) \<longrightarrow>
                 length (rows out) =
                   min (nat n) (length (filter (\<lambda>r. cell_at r ''question_type'' \<in> {Text ''basic'', Text ''assumption''})
                                          (rows ds)))
                 \<and> (\<forall>r \<in> set (rows out).
                       r \<in> set (rows ds) \<and> cell_at r ''question_type'' \<in> {Text ''basic'', Text ''assumption''}))"
proof -
  let ?xs = "rows (category_mask ds)"
  let ?p = "perm (length ?xs)"
  from load_financeqa_sample_rows[of n perm ds, OF assms] obtain out where
    out: "load_financeqa_sample perm ds n = Inr out"
    and r: "rows out = map (\<lambda>i. ?xs ! i) (take (nat n) ?p)"
    by blast
  have len: "length ?p = length ?xs"
    using assms(2) by (rule perm_length)
  from r len have l: "length (rows out) = min (nat n) (length ?xs)"
    by simp
  from r have sub: "mset (rows out) \<subseteq># mset ?xs"
    using mset_map_nth_take_perm[OF assms(2)] by simp
  have all: "mset (rows out) = mset ?xs" if "int (length ?xs) \<le> n"
  proof -
    from that len have "take (nat n) ?p = ?p" by simp
    with r show ?thesis
      using mset_map_nth_perm[OF assms(2)] by simp
  qed
  have absent: "category_mask ds = ds
                 \<and> length (rows out) = min (nat n) (length (rows ds))
                 \<and> mset (rows out) \<subseteq># mset (rows ds)
                 \<and> (int (length (rows ds)) \<le> n \<longrightarrow> mset (rows out) = mset (rows ds))"
    if "''question_type'' \<notin> set (columns ds)"
  proof -
    from that have "category_mask ds = ds"
      by (simp add: category_mask_def)
    with l sub all show ?thesis by simp
  qed
  have present: "length (rows out) =
                   min (nat n) (length (filter (\<lambda>r. cell_at r ''question_type'' \<in> {Text ''basic'', Text ''assumption''})
                                          (rows ds)))
                 \<and> (\<forall>r \<in> set (rows out).
                       r \<in> set (rows ds) \<and> cell_at r ''question_type'' \<in> {Text ''basic'', Text ''assumption''})"
    if "''question_type'' \<in> set (columns ds)"
  proof -
    from that have xs: "?xs = filter (\<lambda>r. cell_at r ''question_type'' \<in> {Text ''basic'', Text ''assumption''}) (rows ds)"
      by (simp add: category_mask_rows)
    from sub have "set (rows out) \<subseteq> set ?xs"
      by (metis set_mset_mono set_mset_mset)
    with xs have "\<forall>r \<in> set (rows out).
        r \<in> set (rows ds) \<and> cell_at r ''question_type'' \<in> {Text ''basic'', Text ''assumption''}"
      by auto
    with l xs show ?thesis by simp
  qed
  from out absent present show ?thesis by blast
qed

theorem sampler_filters_only_when_column_present_witness:
  "(0::int) \<le> 5
   \<and> mset (rev [0..<length (rows (category_mask untyped_table))])
       = mset [0..<length (rows (category_mask untyped_table))]
   \<and> ''question_type'' \<notin> set (columns untyped_table)
   \<and> int (length (rows untyped_table)) \<le> 5
   \<and> category_mask untyped_table = untyped_table
   \<and> (\<exists>out. load_financeqa_sample (\<lambda>m. rev [0..<m]) untyped_table 5 = Inr out
         \<and> length (rows out) = 2
         \<and> mset (rows out) = mset (rows untyped_table))
   \<and> (0::int) \<le> 1
   \<and> mset (rev [0..<length (rows (category_mask mixed_table))])
       = mset [0..<length (rows (category_mask mixed_table))]
   \<and> ''question_type'' \<in> set (columns mixed_table)
   \<and> (\<exists>out. load_financeqa_sample (\<lambda>m. rev [0..<m]) mixed_table 1 = Inr out
         \<and> length (rows out) = 1
         \<and> cell_at (hd (rows out)) ''question_type'' = Text ''assumption'')"
  using sampler_filters_only_when_column_present [of 5 "\<lambda>m. rev [0..<m]" untyped_table]
    sampler_filters_only_when_column_present [of 1 "\<lambda>m. rev [0..<m]" mixed_table]
  by (auto simp add: category_mask_def untyped_table_def mixed_table_def isin_def cell_at_def
      load_financeqa_sample_def sample_n_def sample_frac1_def take_rows_def Let_def)

section \<open>Properties of the viewer's metrics\<close>

text \<open>The count that a tally holds for a label; an absent label counts zero.\<close>

lemma bump_keys: "fst ` set (bump k kcs) = insert k (fst ` set kcs)"
proof (induction k kcs rule: bump.induct)
  case (1 k)
  then show ?case by simp
next
  case (2 k k' c kcs)
  show ?case
  proof (cases "k = k'")
    case True
    then show ?thesis by simp
  next
    case False
    with 2 have "fst ` set (bump k kcs) = insert k (fst ` set kcs)" by simp
    with False show ?thesis by (simp add: insert_commute)
  qed
qed

lemma bump_distinct: "distinct (map fst kcs) \<Longrightarrow> distinct (map fst (bump k kcs))"
proof (induction kcs)
  case Nil
  then show ?case by simp
next
  case (Cons kc kcs)
  obtain k' c where kc: "kc = (k', c)" by (cases kc)
  from Cons have "distinct (map fst (bump k kcs))" by simp
  moreover from Cons.prems kc have "k' \<notin> fst ` set kcs" by simp
  ultimately show ?case
    using Cons.prems kc by (auto simp: bump_keys simp del: image_insert)
qed

lemma bump_positive: "\<forall>kc \<in> set kcs. 0 < snd kc \<Longrightarrow> \<forall>kc \<in> set (bump k kcs). 0 < snd kc"
proof (induction k kcs rule: bump.induct)
  case (1 k)
  then show ?case by simp
next
  case (2 k k' c kcs)
  show ?case
  proof (cases "k = k'")
    case True
    with "2.prems" show ?thesis by simp
  next
    case False
    with 2 have "\<forall>kc \<in> set (bump k kcs). 0 < snd kc" by simp
    with False "2.prems" show ?thesis by simp
  qed
qed

lemma bump_map_of:
  "map_of (bump k kcs) s =
     (if s = k then Some (case map_of kcs k of None \<Rightarrow> 1 | Some c \<Rightarrow> Suc c) else map_of kcs s)"
  by (induction kcs) auto

lemma tally_into_distinct:
  "distinct (map fst acc) \<Longrightarrow> distinct (map fst (tally_into acc cs))"
  by (induction acc cs rule: tally_into.induct) (simp_all add: bump_distinct)

lemma tally_into_positive:
  "\<forall>kc \<in> set acc. 0 < snd kc \<Longrightarrow> \<forall>kc \<in> set (tally_into acc cs). 0 < snd kc"
proof (induction acc cs rule: tally_into.induct)
  case (3 acc s cs)
  from bump_positive[OF "3.prems"] have "\<forall>kc \<in> set (bump s acc). 0 < snd kc" .
  with "3.IH" show ?case by simp
qed simp_all

lemma tally_into_map_of:
  "(case map_of (tally_into acc cs) s of None \<Rightarrow> 0 | Some c \<Rightarrow> c) =
     (case map_of acc s of None \<Rightarrow> 0 | Some c \<Rightarrow> c) + count_list cs (Text s)"
proof (induction acc cs rule: tally_into.induct)
  case (3 acc k cs)
  then show ?case
    by (auto simp: bump_map_of split: option.splits)
qed simp_all

text \<open>The entries of the tally are the texts of the column, each with the number of its
  occurrences.\<close>

lemma tally_entry:
  "(k, c) \<in> set (tally_into [] cs) \<longleftrightarrow> Text k \<in> set cs \<and> c = count_list cs (Text k)"
proof
  assume mem: "(k, c) \<in> set (tally_into [] cs)"
  have "distinct (map fst (tally_into [] cs))"
    by (rule tally_into_distinct) simp
  with mem have m: "map_of (tally_into [] cs) k = Some c"
    by simp
  with tally_into_map_of[of "[]" cs k] have c: "c = count_list cs (Text k)"
    by simp
  have "\<forall>kc \<in> set (tally_into [] cs). 0 < snd kc"
    by (rule tally_into_positive) simp
  with mem have "0 < c" by auto
  with c have "Text k \<in> set cs"
    by (metis count_list_0_iff less_numeral_extra(3))
  with c show "Text k \<in> set cs \<and> c = count_list cs (Text k)" by simp
next
  assume h: "Text k \<in> set cs \<and> c = count_list cs (Text k)"
  then have "0 < count_list cs (Text k)"
    by (metis count_list_0_iff gr0I)
  with tally_into_map_of[of "[]" cs k] obtain c' where
    m: "map_of (tally_into [] cs) k = Some c'" and "c' = count_list cs (Text k)"
    by (cases "map_of (tally_into [] cs) k") auto
  with h have "c' = c" by simp
  with m show "(k, c) \<in> set (tally_into [] cs)"
    by (simp add: map_of_SomeD)
qed

lemma value_counts_entry:
  "(k, c) \<in> set (value_counts cs) \<longleftrightarrow> Text k \<in> set cs \<and> c = count_list cs (Text k)"
  by (simp add: value_counts_def tally_entry)

lemma series_drop_entry:
  "(k, c) \<in> set (series_drop d (value_counts cs))
     \<longleftrightarrow> k \<noteq> d \<and> Text k \<in> set cs \<and> c = count_list cs (Text k)"
  by (auto simp: series_drop_def value_counts_entry)

lemma argmax_from_mem: "argmax_from best kcs \<in> set (best # kcs)"
  by (induction best kcs rule: argmax_from.induct) auto

lemma argmax_from_greatest: "kc \<in> set (best # kcs) \<Longrightarrow> snd kc \<le> snd (argmax_from best kcs)"
proof (induction best kcs arbitrary: kc rule: argmax_from.induct)
  case (1 best)
  then show ?case by simp
next
  case (2 best x kcs)
  let ?b = "if snd best < snd x then x else best"
  have b: "snd best \<le> snd ?b" "snd x \<le> snd ?b" by auto
  have "?b \<in> set (?b # kcs)" by simp
  from "2.IH"[OF this] have top: "snd ?b \<le> snd (argmax_from ?b kcs)" .
  from "2.prems" consider "kc = best" | "kc = x" | "kc \<in> set kcs" by auto
  then show ?case
  proof cases
    case 1
    with b(1) top show ?thesis by simp
  next
    case 2
    with b(2) top show ?thesis by simp
  next
    case 3
    then have "kc \<in> set (?b # kcs)" by simp
    from "2.IH"[OF this] show ?thesis by simp
  qed
qed

lemma idxmax_greatest:
  assumes "kcs \<noteq> []"
  shows "\<exists>k c. idxmax kcs = Inr k \<and> (k, c) \<in> set kcs \<and> (\<forall>kc \<in> set kcs. snd kc \<le> c)"
proof -
  from assms obtain kc rest where kcs: "kcs = kc # rest"
    by (cases kcs) auto
  let ?m = "argmax_from kc rest"
  have "idxmax kcs = Inr (fst ?m)"
    by (simp add: idxmax_def kcs)
  moreover have "(fst ?m, snd ?m) \<in> set kcs"
    using argmax_from_mem[of kc rest] by (simp add: kcs)
  moreover have "\<forall>x \<in> set kcs. snd x \<le> snd ?m"
    using argmax_from_greatest[of _ kc rest] by (simp add: kcs)
  ultimately show ?thesis by blast
qed

text \<open>What \<open>compute_metrics\<close> returns for a table with the column \<open>error_label\<close>.\<close>

lemma compute_metrics_returns:
  assumes "''error_label'' \<in> set (columns df)"
  shows "\<exists>mc. compute_metrics df =
           Inr (length (rows df),
                (if rows df = [] then 0
                 else real (length (filter (\<lambda>r. cell_at r ''error_label'' = Text ''CORRECT'') (rows df)))
                        / real (length (rows df))),
                value_counts (map (\<lambda>r. cell_at r ''error_label'') (rows df)),
                mc)
         \<and> (if series_drop ''CORRECT'' (value_counts (map (\<lambda>r. cell_at r ''error_label'') (rows df))) \<noteq> []
             then idxmax (series_drop ''CORRECT'' (value_counts (map (\<lambda>r. cell_at r ''error_label'') (rows df))))
             else Inr ''CORRECT'') = Inr mc"
proof -
  let ?labels = "map (\<lambda>r. cell_at r ''error_label'') (rows df)"
  let ?tmp = "series_drop ''CORRECT'' (value_counts ?labels)"
  have len: "length (filter (\<lambda>c. c = Text ''CORRECT'') ?labels)
               = length (filter (\<lambda>r. cell_at r ''error_label'' = Text ''CORRECT'') (rows df))"
    by (simp add: filter_map comp_def)
  obtain mc where mc: "(if ?tmp \<noteq> [] then idxmax ?tmp else Inr ''CORRECT'') = Inr mc"
    using idxmax_greatest[of ?tmp] by (cases "?tmp = []") auto
  with assms len show ?thesis
    by (auto simp: compute_metrics_def df_getitem_def Let_def)
qed

text \<open>The label that \<open>compute_metrics\<close> reports as the most common one.\<close>

lemma compute_metrics_most_common:
  assumes "''error_label'' \<in> set (columns df)"
  shows "\<exists>a ec mc. compute_metrics df = Inr (length (rows df), a, ec, mc)
           \<and> ((\<exists>l. l \<noteq> ''CORRECT'' \<and> Text l \<in> set (map (\<lambda>r. cell_at r ''error_label'') (rows df)))
                \<longrightarrow> mc \<noteq> ''CORRECT''
                     \<and> Text mc \<in> set (map (\<lambda>r. cell_at r ''error_label'') (rows df))
                     \<and> (\<forall>l. l \<noteq> ''CORRECT'' \<and> Text l \<in> set (map (\<lambda>r. cell_at r ''error_label'') (rows df))
                            \<longrightarrow> count_list (map (\<lambda>r. cell_at r ''error_label'') (rows df)) (Text l)
                                  \<le> count_list (map (\<lambda>r. cell_at r ''error_label'') (rows df)) (Text mc)))
           \<and> ((\<forall>l. Text l \<in> set (map (\<lambda>r. cell_at r ''error_label'') (rows df)) \<longrightarrow> l = ''CORRECT'')
                \<longrightarrow> mc = ''CORRECT'')"
proof -
  let ?labels = "map (\<lambda>r. cell_at r ''error_label'') (rows df)"
  let ?tmp = "series_drop ''CORRECT'' (value_counts ?labels)"
  from compute_metrics_returns[OF assms] obtain a ec mc where
    cm: "compute_metrics df = Inr (length (rows df), a, ec, mc)"
    and mc: "(if ?tmp \<noteq> [] then idxmax ?tmp else Inr ''CORRECT'') = Inr mc"
    by blast
  show ?thesis
  proof (cases "?tmp = []")
    case True
    with mc have "mc = ''CORRECT''" by simp
    moreover have "\<not> (\<exists>l. l \<noteq> ''CORRECT'' \<and> Text l \<in> set ?labels)"
    proof
      assume "\<exists>l. l \<noteq> ''CORRECT'' \<and> Text l \<in> set ?labels"
      then obtain l where "l \<noteq> ''CORRECT''" "Text l \<in> set ?labels" by blast
      then have "(l, count_list ?labels (Text l)) \<in> set ?tmp"
        by (simp add: series_drop_entry)
      with True show False by simp
    qed
    ultimately show ?thesis using cm by blast
  next
    case False
    from idxmax_greatest[OF False] obtain k c where
      k: "idxmax ?tmp = Inr k" and kc: "(k, c) \<in> set ?tmp"
      and top: "\<forall>x \<in> set ?tmp. snd x \<le> c"
      by blast
    from mc False k have "mc = k" by simp
    from kc have k': "k \<noteq> ''CORRECT''" "Text k \<in> set ?labels" "c = count_list ?labels (Text k)"
      by (simp_all add: series_drop_entry)
    have le: "count_list ?labels (Text l) \<le> count_list ?labels (Text k)"
      if "l \<noteq> ''CORRECT'' \<and> Text l \<in> set ?labels" for l
    proof -
      from that have "(l, count_list ?labels (Text l)) \<in> set ?tmp"
        by (simp add: series_drop_entry)
      with top k'(3) show ?thesis by fastforce
    qed
    have "\<not> (\<forall>l. Text l \<in> set ?labels \<longrightarrow> l = ''CORRECT'')"
      using k'(1,2) by blast
    with cm \<open>mc = k\<close> k'(1,2) le show ?thesis by blast
  qed
qed

lemma count_list_replicate: "count_list (replicate n x) y = (if x = y then n else 0)"
  by (induction n) auto

text \<open>
  C5. For a table with the column \<open>error_label\<close> that holds a label other than
  \<open>CORRECT\<close>, the most common error that the viewer reports is such a label, and no
  label other than \<open>CORRECT\<close> occurs more often. For a table whose counts are
  \<open>ARITHMETIC_ERROR\<close> 5, \<open>WRONG_METRIC_OR_CONCEPT\<close> 2 and \<open>CORRECT\<close> 20 it reports
  \<open>ARITHMETIC_ERROR\<close>.
\<close>

theorem most_common_error_excludes_correct:
  assumes "''error_label'' \<in> set (columns df)"
  shows "\<exists>a ec mc. compute_metrics df = Inr (length (rows df), a, ec, mc)
           \<and> ((\<exists>l. l \<noteq> ''CORRECT'' \<and> Text l \<in> set (map (\<lambda>r. cell_at r ''error_label'') (rows df)))
                \<longrightarrow> mc \<noteq> ''CORRECT''
                     \<and> Text mc \<in> set (map (\<lambda>r. cell_at r ''error_label'') (rows df))
                     \<and> (\<forall>l. l \<noteq> ''CORRECT'' \<and> Text l \<in> set (map (\<lambda>r. cell_at r ''error_label'') (rows df))
                            \<longrightarrow> count_list (map (\<lambda>r. cell_at r ''error_label'') (rows df)) (Text l)
                                  \<le> count_list (map (\<lambda>r. cell_at r ''error_label'') (rows df)) (Text mc)))
           \<and> ((\<forall>l. count_list (map (\<lambda>r. cell_at r ''error_label'') (rows df)) (Text l) =
                      (if l = ''ARITHMETIC_ERROR'' then 5
                       else if l = ''WRONG_METRIC_OR_CONCEPT'' then 2
                       else if l = ''CORRECT'' then 20 else 0))
                \<longrightarrow> mc = ''ARITHMETIC_ERROR'')"
proof -
  define labels where "labels = map (\<lambda>r. cell_at r ''error_label'') (rows df)"
  from compute_metrics_most_common[OF assms] obtain a ec mc where
    cm: "compute_metrics df = Inr (length (rows df), a, ec, mc)"
    and gen: "(\<exists>l. l \<noteq> ''CORRECT'' \<and> Text l \<in> set labels)
                \<longrightarrow> mc \<noteq> ''CORRECT'' \<and> Text mc \<in> set labels
                     \<and> (\<forall>l. l \<noteq> ''CORRECT'' \<and> Text l \<in> set labels
                            \<longrightarrow> count_list labels (Text l) \<le> count_list labels (Text mc))"
    unfolding labels_def by blast
  have example: "mc = ''ARITHMETIC_ERROR''"
    if counts: "\<forall>l. count_list labels (Text l) =
                      (if l = ''ARITHMETIC_ERROR'' then 5
                       else if l = ''WRONG_METRIC_OR_CONCEPT'' then 2
                       else if l = ''CORRECT'' then 20 else 0)"
  proof -
    from spec[OF counts, of "''ARITHMETIC_ERROR''"]
    have five: "count_list labels (Text ''ARITHMETIC_ERROR'') = 5"
      by simp
    then have "count_list labels (Text ''ARITHMETIC_ERROR'') \<noteq> 0"
      by simp
    then have arith: "Text ''ARITHMETIC_ERROR'' \<in> set labels"
      by (simp add: count_list_0_iff)
    have "''ARITHMETIC_ERROR'' \<noteq> ''CORRECT''"
      by simp
    with arith have "\<exists>l. l \<noteq> ''CORRECT'' \<and> Text l \<in> set labels"
      by (intro exI conjI)
    with gen have g: "mc \<noteq> ''CORRECT'' \<and> Text mc \<in> set labels
                     \<and> (\<forall>l. l \<noteq> ''CORRECT'' \<and> Text l \<in> set labels
                            \<longrightarrow> count_list labels (Text l) \<le> count_list labels (Text mc))"
      by (rule mp)
    from g have mc1: "mc \<noteq> ''CORRECT''" and mc2: "Text mc \<in> set labels"
      by simp_all
    from g have "\<forall>l. l \<noteq> ''CORRECT'' \<and> Text l \<in> set labels
                            \<longrightarrow> count_list labels (Text l) \<le> count_list labels (Text mc)"
      by simp
    from spec[OF this, of "''ARITHMETIC_ERROR''"] arith
    have le: "count_list labels (Text ''ARITHMETIC_ERROR'') \<le> count_list labels (Text mc)"
      by simp
    from mc2 have nz: "count_list labels (Text mc) \<noteq> 0"
      by (simp add: count_list_0_iff)
    from spec[OF counts, of mc] have
      c: "count_list labels (Text mc) =
         (if mc = ''ARITHMETIC_ERROR'' then 5
          else if mc = ''WRONG_METRIC_OR_CONCEPT'' then 2
          else if mc = ''CORRECT'' then 20 else 0)" .
    show ?thesis
    proof (rule ccontr)
      assume n: "mc \<noteq> ''ARITHMETIC_ERROR''"
      show False
      proof (cases "mc = ''WRONG_METRIC_OR_CONCEPT''")
        case True
        with c have "count_list labels (Text mc) = 2" by simp
        with le five show False by simp
      next
        case False
        with c n mc1 have "count_list labels (Text mc) = 0" by simp
        with nz show False by simp
      qed
    qed
  qed
  show ?thesis
  proof (intro exI conjI)
    show "compute_metrics df = Inr (length (rows df), a, ec, mc)"
      by (rule cm)
    show "(\<exists>l. l \<noteq> ''CORRECT'' \<and> Text l \<in> set (map (\<lambda>r. cell_at r ''error_label'') (rows df)))
                \<longrightarrow> mc \<noteq> ''CORRECT''
                     \<and> Text mc \<in> set (map (\<lambda>r. cell_at r ''error_label'') (rows df))
                     \<and> (\<forall>l. l \<noteq> ''CORRECT'' \<and> Text l \<in> set (map (\<lambda>r. cell_at r ''error_label'') (rows df))
                            \<longrightarrow> count_list (map (\<lambda>r. cell_at r ''error_label'') (rows df)) (Text l)
                                  \<le> count_list (map (\<lambda>r. cell_at r ''error_label'') (rows df)) (Text mc))"
      using gen unfolding labels_def .
    show "(\<forall>l. count_list (map (\<lambda>r. cell_at r ''error_label'') (rows df)) (Text l) =
                      (if l = ''ARITHMETIC_ERROR'' then 5
                       else if l = ''WRONG_METRIC_OR_CONCEPT'' then 2
                       else if l = ''CORRECT'' then 20 else 0))
                \<longrightarrow> mc = ''ARITHMETIC_ERROR''"
      using example unfolding labels_def by (rule impI)
  qed
qed

lemma counts_table_labels:
  "map (\<lambda>r. cell_at r ''error_label'') (rows counts_table) =
     replicate 20 (Text ''CORRECT'') @ replicate 2 (Text ''WRONG_METRIC_OR_CONCEPT'')
       @ replicate 5 (Text ''ARITHMETIC_ERROR'')"
  by (simp add: counts_table_def labeled_row_def cell_at_def)

lemma counts_table_counts:
  "count_list (map (\<lambda>r. cell_at r ''error_label'') (rows counts_table)) (Text l) =
     (if l = ''ARITHMETIC_ERROR'' then 5
      else if l = ''WRONG_METRIC_OR_CONCEPT'' then 2
      else if l = ''CORRECT'' then 20 else 0)"
  unfolding counts_table_labels
  by (simp add: count_list_replicate)

theorem most_common_error_excludes_correct_witness:
  "''error_label'' \<in> set (columns counts_table)
   \<and> ''ARITHMETIC_ERROR'' \<noteq> ''CORRECT''
   \<and> Text ''ARITHMETIC_ERROR'' \<in> set (map (\<lambda>r. cell_at r ''error_label'') (rows counts_table))
   \<and> (\<forall>l. count_list (map (\<lambda>r. cell_at r ''error_label'') (rows counts_table)) (Text l) =
             (if l = ''ARITHMETIC_ERROR'' then 5
              else if l = ''WRONG_METRIC_OR_CONCEPT'' then 2
              else if l = ''CORRECT'' then 20 else 0))
   \<and> (\<exists>a ec. compute_metrics counts_table = Inr (27, a, ec, ''ARITHMETIC_ERROR''))"
proof -
  have col: "''error_label'' \<in> set (columns counts_table)"
    by (simp add: counts_table_def)
  have ne: "''ARITHMETIC_ERROR'' \<noteq> ''CORRECT''"
    by simp
  have mem: "Text ''ARITHMETIC_ERROR'' \<in> set (map (\<lambda>r. cell_at r ''error_label'') (rows counts_table))"
    unfolding counts_table_labels by simp
  have counts: "\<forall>l. count_list (map (\<lambda>r. cell_at r ''error_label'') (rows counts_table)) (Text l) =
             (if l = ''ARITHMETIC_ERROR'' then 5
              else if l = ''WRONG_METRIC_OR_CONCEPT'' then 2
              else if l = ''CORRECT'' then 20 else 0)"
    by (intro allI) (rule counts_table_counts)
  have len: "length (rows counts_table) = 27"
    by (simp add: counts_table_def)
  from most_common_error_excludes_correct [OF col] obtain a ec mc where
    cm: "compute_metrics counts_table = Inr (length (rows counts_table), a, ec, mc)"
    and ex: "(\<forall>l. count_list (map (\<lambda>r. cell_at r ''error_label'') (rows counts_table)) (Text l) =
                      (if l = ''ARITHMETIC_ERROR'' then 5
                       else if l = ''WRONG_METRIC_OR_CONCEPT'' then 2
                       else if l = ''CORRECT'' then 20 else 0))
                \<longrightarrow> mc = ''ARITHMETIC_ERROR''"
    by (elim exE conjE)
  from ex counts have "mc = ''ARITHMETIC_ERROR''"
    by (rule mp)
  with cm len have "\<exists>a ec. compute_metrics counts_table = Inr (27, a, ec, ''ARITHMETIC_ERROR'')"
    by (intro exI) simp
  with col ne mem counts show ?thesis
    by (intro conjI)
qed

text \<open>
  C6. For a non-empty table with the column \<open>error_label\<close>, the accuracy that the viewer
  computes is the number of rows whose \<open>error_label\<close> is \<open>CORRECT\<close> divided by the number
  of rows; for ten rows of which six are \<open>CORRECT\<close> it is 0.6.
\<close>

theorem accuracy_is_correct_over_total:
  assumes "''error_label'' \<in> set (columns df)" and "rows df \<noteq> []"
  shows "\<exists>a ec mc. compute_metrics df = Inr (length (rows df), a, ec, mc)
           \<and> a = real (length (filter (\<lambda>r. cell_at r ''error_label'' = Text ''CORRECT'') (rows df)))
                   / real (length (rows df))
           \<and> (length (rows df) = 10
                \<and> length (filter (\<lambda>r. cell_at r ''error_label'' = Text ''CORRECT'') (rows df)) = 6
                \<longrightarrow> a = 0.6)"
proof -
  let ?correct = "length (filter (\<lambda>r. cell_at r ''error_label'' = Text ''CORRECT'') (rows df))"
  from compute_metrics_returns[OF assms(1)] assms(2) obtain mc where
    cm: "compute_metrics df =
       Inr (length (rows df), real ?correct / real (length (rows df)),
            value_counts (map (\<lambda>r. cell_at r ''error_label'') (rows df)), mc)"
    by auto
  have "real ?correct / real (length (rows df)) = 0.6"
    if "length (rows df) = 10 \<and> ?correct = 6"
    using that by simp
  with cm show ?thesis by blast
qed

theorem accuracy_is_correct_over_total_witness:
  "''error_label'' \<in> set (columns ten_row_table)
   \<and> rows ten_row_table \<noteq> []
   \<and> length (rows ten_row_table) = 10
   \<and> length (filter (\<lambda>r. cell_at r ''error_label'' = Text ''CORRECT'') (rows ten_row_table)) = 6
   \<and> (\<exists>ec mc. compute_metrics ten_row_table = Inr (10, 0.6, ec, mc))"
proof -
  have col: "''error_label'' \<in> set (columns ten_row_table)"
    by (simp add: ten_row_table_def)
  have ne: "rows ten_row_table \<noteq> []"
    by (simp add: ten_row_table_def)
  have len: "length (rows ten_row_table) = 10"
    by (simp add: ten_row_table_def)
  have six: "length (filter (\<lambda>r. cell_at r ''error_label'' = Text ''CORRECT'') (rows ten_row_table)) = 6"
    by (simp add: ten_row_table_def labeled_row_def cell_at_def)
  from accuracy_is_correct_over_total [OF col ne] obtain a ec mc where
    cm: "compute_metrics ten_row_table = Inr (length (rows ten_row_table), a, ec, mc)"
    and ex: "length (rows ten_row_table) = 10
                \<and> length (filter (\<lambda>r. cell_at r ''error_label'' = Text ''CORRECT'') (rows ten_row_table)) = 6
                \<longrightarrow> a = 0.6"
    by (elim exE conjE)
  from ex len six have "a = 0.6" by simp
  with cm len have "\<exists>ec mc. compute_metrics ten_row_table = Inr (10, 0.6, ec, mc)"
    by (intro exI) simp
  with col ne len six show ?thesis
    by (intro conjI)
qed

text \<open>
  C9. For a non-empty table with the column \<open>error_label\<close> in which no row has a label
  other than \<open>CORRECT\<close>, \<open>compute_metrics\<close> returns, and the most common error that it
  reports is the string \<open>CORRECT\<close>.
\<close>

theorem most_common_is_correct_without_errors:
  assumes "''error_label'' \<in> set (columns df)" and "rows df \<noteq> []"
    and "\<forall>r \<in> set (rows df). \<forall>l. cell_at r ''error_label'' = Text l \<longrightarrow> l = ''CORRECT''"
  shows "\<exists>a ec. compute_metrics df = Inr (length (rows df), a, ec, ''CORRECT'')"
proof -
  from assms(3) have all:
    "\<forall>l. Text l \<in> set (map (\<lambda>r. cell_at r ''error_label'') (rows df)) \<longrightarrow> l = ''CORRECT''"
    by auto
  from compute_metrics_most_common[OF assms(1)] obtain a ec mc where
    cm: "compute_metrics df = Inr (length (rows df), a, ec, mc)"
    and c: "(\<forall>l. Text l \<in> set (map (\<lambda>r. cell_at r ''error_label'') (rows df)) \<longrightarrow> l = ''CORRECT'')
                \<longrightarrow> mc = ''CORRECT''"
    by (elim exE conjE)
  from c all have "mc = ''CORRECT''" by (rule mp)
  with cm show ?thesis by (intro exI) simp
qed

theorem most_common_is_correct_without_errors_witness:
  "''error_label'' \<in> set (columns all_correct_table)
   \<and> rows all_correct_table \<noteq> []
   \<and> set (map (\<lambda>r. cell_at r ''error_label'') (rows all_correct_table)) = {Text ''CORRECT''}
   \<and> (\<exists>a ec. compute_metrics all_correct_table = Inr (3, a, ec, ''CORRECT''))"
proof -
  have col: "''error_label'' \<in> set (columns all_correct_table)"
    by (simp add: all_correct_table_def)
  have ne: "rows all_correct_table \<noteq> []"
    by (simp add: all_correct_table_def)
  have len: "length (rows all_correct_table) = 3"
    by (simp add: all_correct_table_def)
  have labels: "set (map (\<lambda>r. cell_at r ''error_label'') (rows all_correct_table)) = {Text ''CORRECT''}"
    by (simp add: all_correct_table_def labeled_row_def cell_at_def)
  have all: "\<forall>r \<in> set (rows all_correct_table).
                    \<forall>l. cell_at r ''error_label'' = Text l \<longrightarrow> l = ''CORRECT''"
    by (simp add: all_correct_table_def labeled_row_def cell_at_def)
  from most_common_is_correct_without_errors [OF col ne all] len
  have "\<exists>a ec. compute_metrics all_correct_table = Inr (3, a, ec, ''CORRECT'')"
    by simp
  with col ne labels show ?thesis
    by (intro conjI)
qed

section \<open>Navigation in the step-through viewer\<close>

lemma app_main_page:
  assumes "''error_label'' \<in> set (columns df)" and "rows df \<noteq> []"
  shows "app_main df deep_index prev_pressed next_pressed =
           (let i0 = (case deep_index of None \<Rightarrow> 0 | Some i \<Rightarrow> i);
                i1 = (if prev_pressed then i0 - 1 else i0);
                i2 = (if next_pressed then i1 + 1 else i1)
            in (Some i2,
                Some \<lparr>prev_disabled = (i0 \<le> 0),
                      next_disabled = (i1 \<ge> int (length (rows df)) - 1),
                      showing = iloc df i2\<rparr>))"
proof -
  from assms have "\<not> df_empty df"
    by (auto simp: df_empty_def)
  moreover from compute_metrics_returns[OF assms(1)] obtain m where "compute_metrics df = Inr m"
    by blast
  ultimately show ?thesis
    by (simp add: app_main_def Let_def)
qed

text \<open>A run in which each button reports a click only when the flag it was given in that
  same run is off keeps the index inside the table.\<close>

lemma app_main_in_range_when_gated:
  assumes "''error_label'' \<in> set (columns df)" and "rows df \<noteq> []"
    and "0 \<le> i" and "i < int (length (rows df))"
    and "prev_pressed \<longrightarrow> \<not> i \<le> 0"
    and "next_pressed \<longrightarrow> \<not> (if prev_pressed then i - 1 else i) \<ge> int (length (rows df)) - 1"
  shows "\<exists>j p. app_main df (Some i) prev_pressed next_pressed = (Some j, Some p)
           \<and> 0 \<le> j \<and> j < int (length (rows df))"
  using assms(3-6) by (auto simp: app_main_page[OF assms(1,2)] Let_def)

lemma two_row_labeled_rows:
  "rows two_row_labeled = [labeled_row ''CORRECT'', labeled_row ''ARITHMETIC_ERROR'']"
  by (simp add: two_row_labeled_def)

lemma three_row_labeled_rows:
  "rows three_row_labeled =
     [labeled_row ''CORRECT'', labeled_row ''ARITHMETIC_ERROR'', labeled_row ''UNKNOWN'']"
  by (simp add: three_row_labeled_def)

lemma two_row_labeled_page:
  "app_main two_row_labeled deep_index prev_pressed next_pressed =
           (let i0 = (case deep_index of None \<Rightarrow> 0 | Some i \<Rightarrow> i);
                i1 = (if prev_pressed then i0 - 1 else i0);
                i2 = (if next_pressed then i1 + 1 else i1)
            in (Some i2,
                Some \<lparr>prev_disabled = (i0 \<le> 0), next_disabled = (i1 \<ge> 1),
                      showing = iloc two_row_labeled i2\<rparr>))"
proof -
  have "''error_label'' \<in> set (columns two_row_labeled)" "rows two_row_labeled \<noteq> []"
    by (simp_all add: two_row_labeled_def)
  from app_main_page[OF this] show ?thesis
    by (simp add: two_row_labeled_rows)
qed

lemma three_row_labeled_page:
  "app_main three_row_labeled deep_index prev_pressed next_pressed =
           (let i0 = (case deep_index of None \<Rightarrow> 0 | Some i \<Rightarrow> i);
                i1 = (if prev_pressed then i0 - 1 else i0);
                i2 = (if next_pressed then i1 + 1 else i1)
            in (Some i2,
                Some \<lparr>prev_disabled = (i0 \<le> 0), next_disabled = (i1 \<ge> 2),
                      showing = iloc three_row_labeled i2\<rparr>))"
proof -
  have "''error_label'' \<in> set (columns three_row_labeled)" "rows three_row_labeled \<noteq> []"
    by (simp_all add: three_row_labeled_def)
  from app_main_page[OF this] show ?thesis
    by (simp add: three_row_labeled_rows)
qed

text \<open>
  C8 fails on the code. Each button gets its \<open>disabled\<close> flag before the script updates
  the index, so the page that a run leaves can show a button enabled although the index
  has reached the end of the table. On a table of two rows, after \<open>Next\<close> the page shows
  the last row with \<open>Next\<close> still enabled; a second \<open>Next\<close> takes the index to 2, the
  number of rows, and \<open>df.iloc\<close> raises. In the same way three \<open>Previous\<close> after two
  \<open>Next\<close> take the index of a table of three rows to \<open>-1\<close>.
\<close>

theorem navigation_index_leaves_range:
  "length (rows two_row_labeled) = 2
   \<and> browse two_row_labeled (open_viewer two_row_labeled) [Next] =
       Some (Some 1,
             Some \<lparr>prev_disabled = True, next_disabled = False,
                   showing = Inr (labeled_row ''ARITHMETIC_ERROR'')\<rparr>)
   \<and> browse two_row_labeled (open_viewer two_row_labeled) [Next, Next] =
       Some (Some 2,
             Some \<lparr>prev_disabled = False, next_disabled = True,
                   showing = Inl (IndexError ''single positional indexer is out-of-bounds'')\<rparr>)
   \<and> length (rows three_row_labeled) = 3
   \<and> map_option fst
       (browse three_row_labeled (open_viewer three_row_labeled)
          [Next, Next, Previous, Previous, Previous]) = Some (Some (- 1))"
proof -
  have l2: "length (rows two_row_labeled) = 2" and l3: "length (rows three_row_labeled) = 3"
    by (simp_all add: two_row_labeled_rows three_row_labeled_rows)
  have one: "browse two_row_labeled (open_viewer two_row_labeled) [Next] =
       Some (Some 1,
             Some \<lparr>prev_disabled = True, next_disabled = False,
                   showing = Inr (labeled_row ''ARITHMETIC_ERROR'')\<rparr>)"
    by (simp add: open_viewer_def two_row_labeled_page Let_def iloc_def two_row_labeled_rows)
  have two: "browse two_row_labeled (open_viewer two_row_labeled) [Next, Next] =
       Some (Some 2,
             Some \<lparr>prev_disabled = False, next_disabled = True,
                   showing = Inl (IndexError ''single positional indexer is out-of-bounds'')\<rparr>)"
    by (simp add: open_viewer_def two_row_labeled_page Let_def iloc_def two_row_labeled_rows)
  have below: "map_option fst
       (browse three_row_labeled (open_viewer three_row_labeled)
          [Next, Next, Previous, Previous, Previous]) = Some (Some (- 1))"
    by (simp add: open_viewer_def three_row_labeled_page Let_def iloc_def three_row_labeled_rows)
  from l2 one two l3 below show ?thesis
    by (intro conjI)
qed

end
